theory Spec2Isabelle
  imports Main "HOL-Library.Multiset"
begin

section \<open>Data model of package kite (kite/main.go)\<close>

type_synonym bytes = string

text \<open>
  Go error values. \<open>errors.New\<close> and \<open>fmt.Errorf\<close> build an error from its message;
  errors coming from the network and from \<open>encoding/json\<close> are carried the same way.
  \<open>OpError\<close> is \<open>net.OpError\<close> with its fields Op, Net and Err (Addr is nil where the
  source builds one).
\<close>

datatype error = errorString string | OpError string string error

text \<open>The message of an error (\<open>err.Error()\<close>).\<close>

fun Error :: "error \<Rightarrow> string" where
  "Error (errorString s) = s"
| "Error (OpError op nt err) = op @ '' '' @ nt @ '': '' @ Error err"

text \<open>Run-time panics of the Go runtime that the modelled code can raise.\<close>

datatype gopanic = MakesliceCapOutOfRange | IndexOutOfRange | NilPointerDereference

text \<open>
  \<open>protocol.Base\<close>: the identity fields shared by every message and by a remote kite.
\<close>

record Base =
  Username :: string
  Kitename :: string
  Version :: string
  Uuid :: string
  Hostname :: string
  Addr :: string
  Token :: string
  PublicKey :: string
  LocalIP :: string
  PublicIP :: string
  Port :: string

text \<open>
  \<open>protocol.PubResponse\<close> (a decoded broadcast of Kontrol): Base and the action.
  \<open>protocol.Request\<close> (a message sent to Kontrol): Base, the action and the name of
  the requested remote kite.
\<close>

record PubResponse = Base +
  Action :: string

record Request = PubResponse +
  RemoteKite :: string

text \<open>
  A TCP connection (named by the address dialled) and the RPC client that
  \<open>rpc.NewClientWithCodec (NewKiteClientCodec k conn)\<close> wraps around it.
\<close>

datatype conn = Conn string

datatype client = ClientWithCodec conn

text \<open>\<open>models.Kite\<close>: a remote kite; \<open>Client\<close> is nil (None) until it has been dialled.\<close>

record models_Kite = Base +
  Client :: "client option"

text \<open>
  What the code does on the network, in order; a dial is logged with the address and
  with what \<open>net.Dial\<close> returned.
\<close>

datatype net_event =
    NetDial string "error + conn"
  | WriteString conn string
  | ReadResponse conn
  | Close conn

text \<open>
  The state the code reads and writes: the fields of the \<open>Kite\<close> struct that the
  modelled methods use (the identity fields carry the names of \<open>protocol.Base\<close>, whose
  selectors they share; \<open>Token\<close> is not a field of \<open>Kite\<close> and stays unused),
  \<open>OnceServer\<close> (whether \<open>k.OnceServer.Do\<close> has fired), the package variables \<open>kites\<close>
  and \<open>balance\<close>, and what the collaborators have seen: the requests handed to
  \<open>k.Messenger.Send\<close>, the peers handed to \<open>k.Pool.Set\<close>, the network operations.
  The registry behind \<open>kites\<close> is its content (\<open>kites\<close>), the number of snapshots
  taken of it so far (\<open>List_calls\<close>) and the order in which each snapshot lists the
  content (\<open>List_order\<close>, by the number of the snapshot).
\<close>

record node = Base +
  Registered :: bool
  OnceServer :: bool
  kites :: "models_Kite list"
  List_order :: "nat \<Rightarrow> models_Kite list \<Rightarrow> models_Kite list"
  List_calls :: nat
  balance :: "string \<rightharpoonup> int"
  sent :: "Request list"
  pool_peers :: "string list"
  net_log :: "net_event list"

text \<open>
  The collaborators, as functions: \<open>Send\<close> is \<open>Messenger.Send\<close> (its answer may depend
  on the requests sent before), the two \<open>Unmarshal\<close> functions are \<open>json.Unmarshal\<close>
  into a \<open>protocol.PubResponse\<close> and into a \<open>protocol.RegisterResponse\<close> (of which
  only the field \<open>Result\<close> is read), \<open>net_Dial\<close> is \<open>net.Dial "tcp4"\<close>,
  \<open>http_ReadResponse\<close> is \<open>http.ReadResponse\<close> followed by reading \<open>resp.Status\<close>,
  and \<open>Client_Call\<close> is \<open>(*rpc.Client).Call\<close>.
\<close>

record env =
  Send :: "Request list \<Rightarrow> Request \<Rightarrow> bytes"
  Unmarshal_PubResponse :: "bytes \<Rightarrow> error + PubResponse"
  Unmarshal_RegisterResponse :: "bytes \<Rightarrow> error + string"
  net_Dial :: "string \<Rightarrow> error + conn"
  http_ReadResponse :: "conn \<Rightarrow> error + string"
  Client_Call :: "client \<Rightarrow> string \<Rightarrow> string \<Rightarrow> error + string"

text \<open>The zero value of \<open>protocol.Request\<close>.\<close>

definition zero_Request :: Request where
  "zero_Request =
     \<lparr>Username = '''', Kitename = '''', Version = '''', Uuid = '''', Hostname = '''',
      Addr = '''', Token = '''', PublicKey = '''', LocalIP = '''', PublicIP = '''',
      Port = '''', Action = '''', RemoteKite = ''''\<rparr>"

text \<open>The zero value of \<open>models.Kite\<close>.\<close>

definition zero_Kite :: models_Kite where
  "zero_Kite =
     \<lparr>Username = '''', Kitename = '''', Version = '''', Uuid = '''', Hostname = '''',
      Addr = '''', Token = '''', PublicKey = '''', LocalIP = '''', PublicIP = '''',
      Port = '''', Client = None\<rparr>"

section \<open>Packages the file imports\<close>

text \<open>
  Modelled from the spec: package \<open>peers\<close> (the registry behind the variable
  \<open>kites\<close>) is not among the sources. Spec 4.1: \<open>Add(peer)\<close> inserts or replaces the
  entry for the peer's address, \<open>Remove(id)\<close> deletes by the peer's unique id,
  \<open>List()\<close> returns a snapshot of all current peers. The spec gives the snapshot no
  order, so the order of each snapshot is an input of the model: the snapshot number
  \<open>c\<close> lists the content as \<open>List_order k c\<close> arranges it (an arrangement that
  loses or invents a peer is ignored).
\<close>

fun kites_Add :: "models_Kite list \<Rightarrow> models_Kite \<Rightarrow> models_Kite list" where
  "kites_Add [] p = [p]"
| "kites_Add (q # qs) p = (if Addr q = Addr p then p # qs else q # kites_Add qs p)"

definition kites_Remove :: "models_Kite list \<Rightarrow> string \<Rightarrow> models_Kite list" where
  "kites_Remove ps uid = filter (\<lambda>p. Uuid p \<noteq> uid) ps"

definition kites_List :: "node \<Rightarrow> node \<times> models_Kite list" where
  "kites_List k =
     (let l = List_order k (List_calls k) (kites k)
      in (k\<lparr>List_calls := Suc (List_calls k)\<rparr>,
          if mset l = mset (kites k) then l else kites k))"

text \<open>
  Modelled from the spec: package \<open>balancer\<close> (behind the variable \<open>balance\<close>) is not
  among the sources. Spec 4.2: \<open>IndexFor(group)\<close> returns the last-used index for a
  group (default 0 if unseen), \<open>Advance(group, index)\<close> stores a new index for the
  group; the source calls them \<open>GetIndex\<close> and \<open>AddOrUpdateIndex\<close>.
\<close>

definition GetIndex :: "(string \<rightharpoonup> int) \<Rightarrow> string \<Rightarrow> int" where
  "GetIndex b kite = (case b kite of None \<Rightarrow> 0 | Some i \<Rightarrow> i)"

definition AddOrUpdateIndex :: "(string \<rightharpoonup> int) \<Rightarrow> string \<Rightarrow> int \<Rightarrow> (string \<rightharpoonup> int)" where
  "AddOrUpdateIndex b kite n = b(kite \<mapsto> n)"

text \<open>
  Modelled from the spec: the constants of package \<open>protocol\<close> are not among the
  sources. Spec 6: the recognized actions are \<open>addKite\<close>, \<open>removeKite\<close>, \<open>updateKite\<close>
  and \<open>ping\<close>; the result of a registration is \<open>allow\<close> or \<open>deny\<close> (the source names
  the latter constant \<open>PermitKite\<close>).
\<close>

definition protocol_AddKite :: string where
  "protocol_AddKite = ''addKite''"

definition protocol_RemoveKite :: string where
  "protocol_RemoveKite = ''removeKite''"

definition protocol_UpdateKite :: string where
  "protocol_UpdateKite = ''updateKite''"

definition protocol_AllowKite :: string where
  "protocol_AllowKite = ''allow''"

definition protocol_PermitKite :: string where
  "protocol_PermitKite = ''deny''"

text \<open>\<open>rpc.DefaultRPCPath\<close> of the standard library.\<close>

definition DefaultRPCPath :: string where
  "DefaultRPCPath = ''/_goRPC_''"

text \<open>
  Go's \<open>int\<close>, taken with 64 bits: \<open>index + 1\<close> wraps around at \<open>2 ^ 63\<close>.
\<close>

definition int64_wrap :: "int \<Rightarrow> int" where
  "int64_wrap x = (x + 2 ^ 63) mod 2 ^ 64 - 2 ^ 63"

text \<open>The number of binary digits of a natural number.\<close>

fun bit_length :: "nat \<Rightarrow> nat" where
  "bit_length n = (if n = 0 then 0 else Suc (bit_length (n div 2)))"

declare bit_length.simps [simp del]

text \<open>
  \<open>float64(x)\<close> for an \<open>int\<close> \<open>x\<close>, as the integer it denotes: \<open>x\<close> rounded to 53
  significant binary digits, to the nearest such value and to the even one of two
  equally near.
\<close>

definition float64 :: "int \<Rightarrow> int" where
  "float64 x =
     (let a = nat \<bar>x\<bar>;
          u = 2 ^ (bit_length a - 53);
          q = a div u;
          r = a mod u;
          q1 = (if 2 * r < u then q else if u < 2 * r then q + 1
                else if even q then q else q + 1)
      in sgn x * int (q1 * u))"

text \<open>
  \<open>math.Mod x y\<close> on two integer-valued floats: the remainder with the sign of \<open>x\<close>,
  which \<open>math.Mod\<close> computes exactly; it is an integer of smaller magnitude than \<open>y\<close>,
  so the conversion \<open>int(...)\<close> of the source returns it as it is. (\<open>y\<close> is never 0
  where the source calls it.)
\<close>

definition math_Mod :: "int \<Rightarrow> int \<Rightarrow> int" where
  "math_Mod x y = sgn x * (\<bar>x\<bar> mod \<bar>y\<bar>)"

section \<open>Coordination: broadcasts of Kontrol\<close>

definition PeersAddr :: "node \<Rightarrow> node \<times> string list" where
  "PeersAddr k = (case kites_List k of (k1, l) \<Rightarrow> (k1, map Addr l))"

definition SetPeers :: "node \<Rightarrow> string list \<Rightarrow> node" where
  "SetPeers k peers = k\<lparr>pool_peers := peers\<rparr>"

text \<open>
  The last statement of \<open>AddKite\<close> and of \<open>RemoveKite\<close>,
  \<open>debug(..., r.Action, k.PeersAddr())\<close>, takes one more snapshot of the registry
  for its argument.
\<close>

definition AddKite :: "node \<Rightarrow> PubResponse \<Rightarrow> node" where
  "AddKite k r =
     (if \<not> Registered k then k
      else
        let kite = zero_Kite\<lparr>Username := Username r, Kitename := Kitename r,
                     Version := Version r, Uuid := Uuid r, Hostname := Hostname r,
                     Addr := Addr r\<rparr>;
            k1 = k\<lparr>kites := kites_Add (kites k) kite\<rparr>
        in case PeersAddr k1 of
             (k2, peers) \<Rightarrow> fst (PeersAddr (SetPeers k2 peers)))"

definition RemoveKite :: "node \<Rightarrow> PubResponse \<Rightarrow> node" where
  "RemoveKite k r =
     (if \<not> Registered k then k
      else fst (PeersAddr (k\<lparr>kites := kites_Remove (kites k) (Uuid r)\<rparr>)))"

text \<open>The \<open>protocol.Request\<close> that \<open>Pong\<close> builds.\<close>

definition pong_Request :: "node \<Rightarrow> Request" where
  "pong_Request k =
     zero_Request\<lparr>Kitename := Kitename k, Uuid := Uuid k, Action := ''pong''\<rparr>"

definition Pong :: "env \<Rightarrow> node \<Rightarrow> node" where
  "Pong E k =
     (let m = pong_Request k;
          resp = Send E (sent k) m;
          k1 = k\<lparr>sent := sent k @ [m]\<rparr>
      in if resp = ''UPDATE'' then k1\<lparr>Registered := False\<rparr> else k1)"

text \<open>The \<open>protocol.Request\<close> that \<open>RegisterToKontrol\<close> builds.\<close>

definition register_Request :: "node \<Rightarrow> Request" where
  "register_Request k =
     zero_Request\<lparr>Username := Username k, Kitename := Kitename k,
       Version := Version k, Uuid := Uuid k, PublicKey := PublicKey k,
       Hostname := Hostname k, Addr := Addr k, LocalIP := LocalIP k,
       PublicIP := PublicIP k, Port := Port k, Action := ''register''\<rparr>"

text \<open>
  \<open>json.Marshal\<close> of a struct of strings does not fail, so the first error return of
  the source is unreachable; the request is logged as the struct itself.
\<close>

definition RegisterToKontrol :: "env \<Rightarrow> node \<Rightarrow> node \<times> error option" where
  "RegisterToKontrol E k =
     (let m = register_Request k;
          result = Send E (sent k) m;
          k1 = k\<lparr>sent := sent k @ [m]\<rparr>
      in case Unmarshal_RegisterResponse E result of
           Inl err \<Rightarrow> (k1, Some err)
         | Inr resp_Result \<Rightarrow>
             if resp_Result = protocol_AllowKite then (k1, None)
             else if resp_Result = protocol_PermitKite
               then (k1, Some (errorString ''no permission to run''))
             else (k1, Some (errorString ''got a nonstandard response'')))"

text \<open>
  \<open>go k.OnceServer.Do(onceBody)\<close> starts the listener in a goroutine of its own; the
  model records that the once has fired and leaves the listener out.
\<close>

definition InitializeKite :: "env \<Rightarrow> node \<Rightarrow> node" where
  "InitializeKite E k =
     (if Registered k then k
      else case RegisterToKontrol E k of
             (k1, Some err) \<Rightarrow> k1
           | (k1, None) \<Rightarrow> k1\<lparr>OnceServer := True, Registered := True\<rparr>)"

definition handle :: "env \<Rightarrow> node \<Rightarrow> bytes \<Rightarrow> node" where
  "handle E k msg =
     (case Unmarshal_PubResponse E msg of
        Inl err \<Rightarrow> k
      | Inr r \<Rightarrow>
          let k1 = Pong E k
          in if Action r = protocol_AddKite then AddKite k1 r
             else if Action r = protocol_RemoveKite then RemoveKite k1 r
             else if Action r = protocol_UpdateKite then k1\<lparr>Registered := False\<rparr>
             else if Action r = ''ping'' then InitializeKite E k1
             else k1)"

section \<open>RPC: dialling, resolving and calling a remote kite\<close>

definition connected :: string where
  "connected = ''200 Connected to Go RPC''"

definition dialClient :: "env \<Rightarrow> node \<Rightarrow> models_Kite \<Rightarrow> node \<times> (error + client)" where
  "dialClient E k kite =
     (case net_Dial E (Addr kite) of
        Inl err \<Rightarrow> (k\<lparr>net_log := net_log k @ [NetDial (Addr kite) (Inl err)]\<rparr>, Inl err)
      | Inr conn \<Rightarrow>
          let k1 = k\<lparr>net_log := net_log k @
                     [NetDial (Addr kite) (Inr conn),
                      WriteString conn
                        (''CONNECT '' @ DefaultRPCPath @ '' HTTP/1.0'' @ [CHR 0x0A, CHR 0x0A]),
                      ReadResponse conn]\<rparr>;
              k2 = k1\<lparr>net_log := net_log k1 @ [Close conn]\<rparr>;
              net_tcp = ''tcp '' @ Addr kite
          in case http_ReadResponse E conn of
               Inr resp_Status \<Rightarrow>
                 if resp_Status = connected then (k1, Inr (ClientWithCodec conn))
                 else (k2, Inl (OpError ''dial-http'' net_tcp
                         (errorString (''unexpected HTTP response: '' @ resp_Status))))
             | Inl err \<Rightarrow> (k2, Inl (OpError ''dial-http'' net_tcp err)))"

text \<open>
  \<open>make([]*models.Kite, 0, len(l)-1)\<close> panics when the capacity is negative, that is
  when the registry is empty.
\<close>

definition RemoteKites :: "node \<Rightarrow> string \<Rightarrow> gopanic + (node \<times> models_Kite list)" where
  "RemoteKites k kite =
     (case kites_List k of
        (k1, l) \<Rightarrow>
          if int (length l) - 1 < 0 then Inl MakesliceCapOutOfRange
          else Inr (k1, filter (\<lambda>r. Kitename r = kite) l))"

text \<open>
  \<open>n := int(math.Mod(float64(index+1), N))\<close> with \<open>N := float64(lenOfKites)\<close>;
  \<open>remoteKites[n]\<close> panics when \<open>n\<close> is out of range.
\<close>

definition roundRobin :: "node \<Rightarrow> string \<Rightarrow> gopanic + (node \<times> (error + models_Kite))" where
  "roundRobin k kite =
     (case RemoteKites k kite of
        Inl p \<Rightarrow> Inl p
      | Inr (k0, remoteKites) \<Rightarrow>
          let lenOfKites = int (length remoteKites)
          in if lenOfKites = 0
             then Inr (k0, Inl (errorString (''kite '' @ kite @ '' does not exist'')))
             else
               let index = GetIndex (balance k0) kite;
                   N = float64 lenOfKites;
                   n = math_Mod (float64 (int64_wrap (index + 1))) N;
                   k1 = k0\<lparr>balance := AddOrUpdateIndex (balance k0) kite n\<rparr>
               in if 0 \<le> n \<and> n < lenOfKites
                  then Inr (k1, Inr (remoteKites ! nat n))
                  else Inl IndexOutOfRange)"

text \<open>
  \<open>r.Client, err = k.dialClient(r)\<close> stores the nil client of a failed dial in a
  kite whose client was nil, so a failed dial changes nothing of the kite.
\<close>

definition getRemoteKite :: "env \<Rightarrow> node \<Rightarrow> string \<Rightarrow> gopanic + (node \<times> (error + models_Kite))" where
  "getRemoteKite E k kite =
     (case roundRobin k kite of
        Inl p \<Rightarrow> Inl p
      | Inr (k1, Inl err) \<Rightarrow> Inr (k1, Inl err)
      | Inr (k1, Inr r) \<Rightarrow>
          (case Client r of
             Some c \<Rightarrow> Inr (k1, Inr r)
           | None \<Rightarrow>
               (case dialClient E k1 r of
                  (k2, Inl err) \<Rightarrow> Inr (k2, Inl err)
                | (k2, Inr c) \<Rightarrow>
                    let r1 = r\<lparr>Client := Some c\<rparr>
                    in Inr (k2\<lparr>kites := kites_Add (kites k2) r1\<rparr>, Inr r1))))"

definition CallSync :: "env \<Rightarrow> node \<Rightarrow> string \<Rightarrow> string \<Rightarrow> string \<Rightarrow> gopanic + (node \<times> (error + string))" where
  "CallSync E k kite method args =
     (case getRemoteKite E k kite of
        Inl p \<Rightarrow> Inl p
      | Inr (k1, Inl err) \<Rightarrow> Inr (k1, Inl err)
      | Inr (k1, Inr remoteKite) \<Rightarrow>
          let rpcFunc = kite @ ''.'' @ method
          in case Client remoteKite of
               None \<Rightarrow> Inl NilPointerDereference
             | Some c \<Rightarrow>
                 (case Client_Call E c rpcFunc args of
                    Inl err \<Rightarrow>
                      Inr (k1, Inl (errorString (''['' @ kite @ ''] call error: '' @ Error err)))
                  | Inr result \<Rightarrow> Inr (k1, Inr result)))"

text \<open>
  The body of \<open>case <-runCall\<close> in \<open>Call\<close>. \<open>var result string\<close> and
  \<open>d := remoteKite.Client.Go(rpcFunc, a, &result, nil)\<close> leave a pending call: by
  \<open>net/rpc\<close>, \<open>d.Error\<close> is nil and \<open>result\<close> is untouched until the call completes.
  On completion \<open>net/rpc\<close> stores the error in \<open>d.Error\<close>, or the reply in \<open>result\<close>,
  and signals \<open>d.Done\<close>. The inner select then takes the branch of whichever arrives
  first, the completion or the tick of \<open>time.Tick(10 * time.Second)\<close>; both branches
  run \<open>fn(d.Error, result)\<close>. The function returns the calls of \<open>fn\<close>, in order.
\<close>

record pending_call =
  d_Error :: "error option"
  result :: string

datatype arrival = Done "error + string" | Tick

definition Client_Go :: pending_call where
  "Client_Go = \<lparr>d_Error = None, result = ''''\<rparr>"

definition complete :: "error + string \<Rightarrow> pending_call \<Rightarrow> pending_call" where
  "complete resp d =
     (case resp of Inl err \<Rightarrow> d\<lparr>d_Error := Some err\<rparr> | Inr reply \<Rightarrow> d\<lparr>result := reply\<rparr>)"

definition Call_runCall :: "arrival \<Rightarrow> (error option \<times> string) list" where
  "Call_runCall a =
     (let d = Client_Go
      in case a of
           Done resp \<Rightarrow> (let d1 = complete resp d in [(d_Error d1, result d1)])
         | Tick \<Rightarrow> [(d_Error d, result d)])"

section \<open>Observations used to state the properties\<close>

text \<open>\<open>m\<close> consecutive calls of \<open>roundRobin\<close> for one name, with what each returned.\<close>

fun roundRobin_times :: "nat \<Rightarrow> node \<Rightarrow> string \<Rightarrow> (gopanic + error + models_Kite) list" where
  "roundRobin_times 0 k kite = []"
| "roundRobin_times (Suc m) k kite =
     (case roundRobin k kite of
        Inl p \<Rightarrow> [Inl p]
      | Inr (k1, res) \<Rightarrow> Inr res # roundRobin_times m k1 kite)"

text \<open>The requests sent to Kontrol between two states, and how many of them register.\<close>

definition requests_since :: "node \<Rightarrow> node \<Rightarrow> Request list" where
  "requests_since k k1 = drop (length (sent k)) (sent k1)"

definition registrations :: "Request list \<Rightarrow> nat" where
  "registrations ms = length (filter (\<lambda>m. Action m = ''register'') ms)"

text \<open>The network operations between two states; dial attempts; connections left open.\<close>

definition net_since :: "node \<Rightarrow> node \<Rightarrow> net_event list" where
  "net_since k k1 = drop (length (net_log k)) (net_log k1)"

fun dial_attempts :: "net_event list \<Rightarrow> nat" where
  "dial_attempts [] = 0"
| "dial_attempts (NetDial a res # evs) = Suc (dial_attempts evs)"
| "dial_attempts (ev # evs) = dial_attempts evs"

text \<open>A connection is open from the dial that returned it until it is closed.\<close>

fun left_open :: "net_event list \<Rightarrow> conn list \<Rightarrow> conn list" where
  "left_open [] cs = cs"
| "left_open (NetDial a (Inr c) # evs) cs = left_open evs (cs @ [c])"
| "left_open (Close c # evs) cs = left_open evs (removeAll c cs)"
| "left_open (ev # evs) cs = left_open evs cs"

section \<open>Example inputs\<close>

definition demo_node :: node where
  "demo_node =
     \<lparr>Username = ''user'', Kitename = ''user/fs'', Version = ''1'', Uuid = ''id-0'',
      Hostname = ''host'', Addr = ''10.0.0.1:4000'', Token = '''', PublicKey = ''key'',
      LocalIP = ''10.0.0.1'', PublicIP = ''1.2.3.4'', Port = ''4000'',
      Registered = False, OnceServer = False, kites = [],
      List_order = (\<lambda>c ps. ps), List_calls = 0, balance = Map.empty,
      sent = [], pool_peers = [], net_log = []\<rparr>"

definition demo_peer :: "string \<Rightarrow> string \<Rightarrow> models_Kite" where
  "demo_peer name addr = zero_Kite\<lparr>Kitename := name, Uuid := addr, Addr := addr\<rparr>"

text \<open>
  A coordinator whose broadcasts are the bare action names, answering the \<open>n\<close>-th
  register request (from 0) with \<open>answers ! n\<close> and every other request with the
  empty string; a network where every dial and every handshake succeeds.
\<close>

definition demo_pub :: "bytes \<Rightarrow> PubResponse" where
  "demo_pub b =
     \<lparr>Username = ''user'', Kitename = ''user/db'', Version = ''1'', Uuid = ''id-1'',
      Hostname = ''host1'', Addr = ''10.0.0.2:4000'', Token = '''', PublicKey = '''',
      LocalIP = '''', PublicIP = '''', Port = '''', Action = b\<rparr>"

definition demo_env :: "string list \<Rightarrow> env" where
  "demo_env answers =
     \<lparr>Send = (\<lambda>hist m. if Action m = ''register'' \<and> registrations hist < length answers
                        then answers ! registrations hist else ''''),
      Unmarshal_PubResponse = (\<lambda>b. Inr (demo_pub b)),
      Unmarshal_RegisterResponse = (\<lambda>b. Inr b),
      net_Dial = (\<lambda>a. Inr (Conn a)),
      http_ReadResponse = (\<lambda>c. Inr connected),
      Client_Call = (\<lambda>c f a. Inr a)\<rparr>"

definition demo_registry :: "models_Kite list" where
  "demo_registry =
     [demo_peer ''user/db'' ''10.0.0.2:4000'', demo_peer ''user/www'' ''10.0.0.3:4000'',
      demo_peer ''user/db'' ''10.0.0.4:4000'', demo_peer ''user/db'' ''10.0.0.5:4000'']"

section \<open>Round-robin resolution\<close>

lemma bit_length_le: "a < 2 ^ k \<Longrightarrow> bit_length a \<le> k"
proof (induction k arbitrary: a)
  case 0
  then have "a = 0" by simp
  then show ?case by (simp add: bit_length.simps)
next
  case (Suc k)
  show ?case
  proof (cases "a = 0")
    case True
    then show ?thesis by (simp add: bit_length.simps)
  next
    case False
    have "a div 2 < 2 ^ k" using Suc.prems by simp
    then have "bit_length (a div 2) \<le> k" by (rule Suc.IH)
    then show ?thesis using False by (subst bit_length.simps) simp
  qed
qed

lemma float64_exact: "\<bar>x\<bar> < 2 ^ 53 \<Longrightarrow> float64 x = x"
proof -
  assume b: "\<bar>x\<bar> < 2 ^ 53"
  then have "nat \<bar>x\<bar> < 2 ^ 53" by simp
  then have "bit_length (nat \<bar>x\<bar>) \<le> 53" by (rule bit_length_le)
  then have e: "bit_length (nat \<bar>x\<bar>) - 53 = 0" by simp
  show "float64 x = x"
    by (simp add: float64_def e Let_def mult_sgn_abs)
qed

lemma float64_nonneg: "0 \<le> x \<Longrightarrow> 0 \<le> float64 x"
  by (simp add: float64_def Let_def sgn_if)

lemma int64_wrap_id: "- (2 ^ 63) \<le> x \<Longrightarrow> x < 2 ^ 63 \<Longrightarrow> int64_wrap x = x"
  by (simp add: int64_wrap_def)

lemma math_Mod_nonneg: "0 \<le> x \<Longrightarrow> 0 < y \<Longrightarrow> math_Mod x y = x mod y"
  by (cases "x = 0") (simp_all add: math_Mod_def)

text \<open>Where the model leaves the exact remainder: rounding above \<open>2 ^ 53\<close>, wrap-around.\<close>

lemma bit_length_numerals:
  "bit_length 9007199254740993 = 54" "bit_length 9223372036854775808 = 64"
  "bit_length 3 = 2"
  by (simp_all add: bit_length.simps)

lemma float64_rounds: "float64 (2 ^ 53 + 1) = 2 ^ 53"
  by (simp add: float64_def Let_def bit_length_numerals)

lemma index_after_2_53: "math_Mod (float64 (int64_wrap (2 ^ 53 + 1))) (float64 3) = 2"
  by (simp add: int64_wrap_def float64_def Let_def math_Mod_def bit_length_numerals)

lemma index_after_MaxInt64: "math_Mod (float64 (int64_wrap (2 ^ 63 - 1 + 1))) (float64 3) = - 2"
  by (simp add: int64_wrap_def float64_def Let_def math_Mod_def bit_length_numerals)

lemma fst_kites_List: "fst (kites_List k) = k\<lparr>List_calls := Suc (List_calls k)\<rparr>"
  by (simp add: kites_List_def Let_def)

lemma mset_kites_List: "mset (snd (kites_List k)) = mset (kites k)"
  by (simp add: kites_List_def Let_def)

lemma length_kites_List: "length (snd (kites_List k)) = length (kites k)"
  using mset_kites_List [of k] by (metis size_mset)

lemma kites_List_stable:
  "List_order k (List_calls k) (kites k) = l \<Longrightarrow> mset l = mset (kites k) \<Longrightarrow>
   snd (kites_List k) = l"
  by (simp add: kites_List_def Let_def)

lemma mset_candidates:
  "mset (filter P (snd (kites_List k))) = mset (filter P (kites k))"
  by (simp add: mset_filter mset_kites_List)

lemma length_candidates:
  "length (filter P (snd (kites_List k))) = length (filter P (kites k))"
  using mset_candidates [of P k] by (metis size_mset)

lemma RemoteKites_eq:
  "RemoteKites k kite =
     (if kites k = [] then Inl MakesliceCapOutOfRange
      else Inr (k\<lparr>List_calls := Suc (List_calls k)\<rparr>,
                filter (\<lambda>r. Kitename r = kite) (snd (kites_List k))))"
proof -
  obtain k1 l where kl: "kites_List k = (k1, l)"
    by (cases "kites_List k")
  have "k1 = k\<lparr>List_calls := Suc (List_calls k)\<rparr>"
    using fst_kites_List [of k] by (simp add: kl)
  moreover have "length l = length (kites k)"
    using length_kites_List [of k] by (simp add: kl)
  ultimately show ?thesis
    by (cases "kites k") (auto simp: RemoteKites_def kl)
qed

text \<open>
  One resolution, for an index in the range of \<open>int\<close> and a candidate list \<open>rs\<close> whose
  length \<open>float64\<close> holds exactly.
\<close>

lemma roundRobin_step:
  assumes rs: "filter (\<lambda>r. Kitename r = kite) (snd (kites_List k)) = rs" and ne: "rs \<noteq> []"
    and len: "int (length rs) < 2 ^ 53"
    and lo: "0 \<le> GetIndex (balance k) kite" and hi: "GetIndex (balance k) kite < 2 ^ 63 - 1"
  shows "roundRobin k kite =
     Inr (k\<lparr>List_calls := Suc (List_calls k),
            balance := AddOrUpdateIndex (balance k) kite
              (float64 (GetIndex (balance k) kite + 1) mod int (length rs))\<rparr>,
          Inr (rs ! nat (float64 (GetIndex (balance k) kite + 1) mod int (length rs))))"
proof -
  let ?n = "int (length rs)"
  let ?i = "GetIndex (balance k) kite"
  have pos: "0 < ?n" using ne by simp
  have kne: "kites k \<noteq> []"
  proof
    assume "kites k = []"
    then have "snd (kites_List k) = []"
      using length_kites_List [of k] by simp
    then show False using rs ne by simp
  qed
  have N: "float64 ?n = ?n"
    using len by (simp add: float64_exact)
  have w: "int64_wrap (?i + 1) = ?i + 1"
    using lo hi by (simp add: int64_wrap_id)
  have f: "0 \<le> float64 (?i + 1)"
    using lo by (simp add: float64_nonneg)
  have m: "math_Mod (float64 (?i + 1)) ?n = float64 (?i + 1) mod ?n"
    using f pos by (rule math_Mod_nonneg)
  have b1: "0 \<le> float64 (?i + 1) mod ?n" and b2: "float64 (?i + 1) mod ?n < ?n"
    using pos by simp_all
  show ?thesis
    using ne b1 b2 kne by (simp add: roundRobin_def RemoteKites_eq rs N w m Let_def)
qed

lemma roundRobin_keeps_kites:
  "roundRobin k kite = Inr (k1, res) \<Longrightarrow> kites k1 = kites k"
  by (auto simp: roundRobin_def RemoteKites_eq Let_def split: sum.splits if_splits)

lemma roundRobin_keeps_List_order:
  "roundRobin k kite = Inr (k1, res) \<Longrightarrow> List_order k1 = List_order k"
  by (auto simp: roundRobin_def RemoteKites_eq Let_def split: sum.splits if_splits)

lemma roundRobin_keeps_net_log:
  "roundRobin k kite = Inr (k1, res) \<Longrightarrow> net_log k1 = net_log k"
  by (auto simp: roundRobin_def RemoteKites_eq Let_def split: sum.splits if_splits)

text \<open>
  What \<open>roundRobin\<close> stores is an index into the candidates, so it is not negative
  and below the size of the registry; the other names keep their index.
\<close>

lemma roundRobin_stores_in_range:
  assumes "roundRobin k kite = Inr (k1, Inr r)"
  shows "0 \<le> GetIndex (balance k1) kite \<and> GetIndex (balance k1) kite < int (length (kites k))"
proof -
  have "int (length (filter (\<lambda>r. Kitename r = kite) (snd (kites_List k)))) \<le> int (length (kites k))"
    using length_filter_le [of "\<lambda>r. Kitename r = kite" "snd (kites_List k)"]
    by (simp add: length_kites_List)
  then show ?thesis
    using assms
    by (auto simp: roundRobin_def RemoteKites_eq Let_def GetIndex_def AddOrUpdateIndex_def
        split: sum.splits if_splits)
qed

lemma roundRobin_keeps_other_index:
  assumes "roundRobin k kite = Inr (k1, res)" and "g \<noteq> kite"
  shows "GetIndex (balance k1) g = GetIndex (balance k) g"
  using assms
  by (auto simp: roundRobin_def RemoteKites_eq Let_def GetIndex_def AddOrUpdateIndex_def
      split: sum.splits if_splits)

lemma GetIndex_unseen: "GetIndex Map.empty g = 0"
  by (simp add: GetIndex_def)

lemma roundRobin_step_stable:
  assumes st: "\<And>c. List_order k c (kites k) = l" and ms: "mset l = mset (kites k)"
    and rs: "filter (\<lambda>r. Kitename r = kite) l = rs" and ne: "rs \<noteq> []"
    and len: "int (length rs) < 2 ^ 53"
    and lo: "0 \<le> GetIndex (balance k) kite" and hi: "GetIndex (balance k) kite + 1 < 2 ^ 53"
  shows "roundRobin k kite =
     Inr (k\<lparr>List_calls := Suc (List_calls k),
            balance := AddOrUpdateIndex (balance k) kite
              ((GetIndex (balance k) kite + 1) mod int (length rs))\<rparr>,
          Inr (rs ! nat ((GetIndex (balance k) kite + 1) mod int (length rs))))"
proof -
  have s: "snd (kites_List k) = l"
    using st ms by (rule kites_List_stable)
  have c: "filter (\<lambda>r. Kitename r = kite) (snd (kites_List k)) = rs"
    using rs by (simp add: s)
  have h: "GetIndex (balance k) kite < 2 ^ 63 - 1"
    using hi by simp
  have e: "float64 (GetIndex (balance k) kite + 1) = GetIndex (balance k) kite + 1"
    using lo hi by (simp add: float64_exact)
  show ?thesis
    using roundRobin_step [OF c ne len lo h] by (simp only: e)
qed

lemma roundRobin_times_eq:
  assumes "\<And>c. List_order k c (kites k) = l" and "mset l = mset (kites k)"
    and "filter (\<lambda>r. Kitename r = kite) l = rs" and "rs \<noteq> []"
    and "int (length rs) < 2 ^ 53"
    and "0 \<le> GetIndex (balance k) kite" and "GetIndex (balance k) kite + 1 < 2 ^ 53"
  shows "roundRobin_times m k kite =
     map (\<lambda>j. Inr (Inr (rs ! ((nat (GetIndex (balance k) kite) + 1 + j) mod length rs)))) [0..<m]"
  using assms(1,2,6,7)
proof (induction m arbitrary: k)
  case 0
  then show ?case by simp
next
  case (Suc m)
  let ?n = "length rs"
  let ?i = "GetIndex (balance k) kite"
  let ?i1 = "(?i + 1) mod int ?n"
  let ?k1 = "k\<lparr>List_calls := Suc (List_calls k),
      balance := AddOrUpdateIndex (balance k) kite ?i1\<rparr>"
  have pos: "0 < ?n" using assms(4) by simp
  have step: "roundRobin k kite = Inr (?k1, Inr (rs ! nat ?i1))"
    by (rule roundRobin_step_stable [OF Suc.prems(1,2) assms(3,4,5) Suc.prems(3,4)])
  have st1: "\<And>c. List_order ?k1 c (kites ?k1) = l"
    using Suc.prems(1) by simp
  have ms1: "mset l = mset (kites ?k1)"
    using Suc.prems(2) by simp
  have g1: "GetIndex (balance ?k1) kite = ?i1"
    by (simp add: GetIndex_def AddOrUpdateIndex_def)
  have lo1: "0 \<le> GetIndex (balance ?k1) kite"
    unfolding g1 using pos by simp
  have "?i1 < int ?n" using pos by simp
  then have hi1: "GetIndex (balance ?k1) kite + 1 < 2 ^ 53"
    unfolding g1 using assms(5) by linarith
  have n1: "nat ?i1 = (nat ?i + 1) mod ?n"
    using Suc.prems(3) by (simp add: nat_mod_distrib nat_add_distrib)
  have IH: "roundRobin_times m ?k1 kite =
     map (\<lambda>j. Inr (Inr (rs ! ((nat ?i1 + 1 + j) mod ?n)))) [0..<m]"
    using Suc.IH [OF st1 ms1 lo1 hi1] by (simp only: g1)
  have shift: "\<And>j. (nat ?i1 + 1 + j) mod ?n = (nat ?i + 1 + Suc j) mod ?n"
  proof -
    fix j
    have "(nat ?i1 + 1 + j) mod ?n = ((nat ?i + 1) mod ?n + (1 + j)) mod ?n"
      by (simp add: n1 add.assoc)
    also have "\<dots> = (nat ?i + 1 + (1 + j)) mod ?n"
      by (rule mod_add_left_eq)
    finally show "(nat ?i1 + 1 + j) mod ?n = (nat ?i + 1 + Suc j) mod ?n" by simp
  qed
  have first: "nat ?i1 = (nat ?i + 1 + 0) mod ?n"
    by (simp add: n1)
  have tl: "roundRobin_times m ?k1 kite =
     map (\<lambda>j. Inr (Inr (rs ! ((nat ?i + 1 + Suc j) mod ?n)))) [0..<m]"
    unfolding IH by (simp only: shift)
  have "roundRobin_times (Suc m) k kite =
      Inr (Inr (rs ! nat ?i1)) # roundRobin_times m ?k1 kite"
    by (simp add: step)
  also have "\<dots> = Inr (Inr (rs ! ((nat ?i + 1 + 0) mod ?n))) #
      map (\<lambda>j. Inr (Inr (rs ! ((nat ?i + 1 + Suc j) mod ?n)))) [0..<m]"
    unfolding tl by (simp only: first)
  also have "\<dots> = map (\<lambda>j. Inr (Inr (rs ! ((nat ?i + 1 + j) mod ?n)))) [0..<Suc m]"
    by (simp only: upt_conv_Cons [OF zero_less_Suc] list.map map_Suc_upt [symmetric] map_map o_def)
  finally show ?case .
qed

lemma map_nth_rotate:
  "map (\<lambda>j. xs ! ((a + j) mod length xs)) [0..<length xs] = rotate a xs"
  by (rule nth_equalityI) (simp_all add: nth_rotate)

lemma nth_map_upt0: "i < m \<Longrightarrow> map f [0..<m] ! i = f i"
  by (simp del: upt_Suc)

lemma mset_rotate1_eq: "mset (rotate1 xs) = mset xs"
  by (cases xs) simp_all

lemma mset_rotate_eq: "mset (rotate n xs) = mset xs"
  by (induction n) (simp_all add: mset_rotate1_eq)

lemma roundRobin_times_rotate:
  assumes "\<And>c. List_order k c (kites k) = l" and "mset l = mset (kites k)"
    and "filter (\<lambda>r. Kitename r = kite) l = rs" and "rs \<noteq> []"
    and "int (length rs) < 2 ^ 53"
    and "0 \<le> GetIndex (balance k) kite" and "GetIndex (balance k) kite + 1 < 2 ^ 53"
  shows "roundRobin_times (length rs) k kite =
     map (\<lambda>r. Inr (Inr r)) (rotate (nat (GetIndex (balance k) kite) + 1) rs)"
proof -
  have "roundRobin_times (length rs) k kite =
     map (\<lambda>r. Inr (Inr r))
       (map (\<lambda>j. rs ! ((nat (GetIndex (balance k) kite) + 1 + j) mod length rs)) [0..<length rs])"
    by (simp add: roundRobin_times_eq [OF assms] o_def)
  then show ?thesis by (simp only: map_nth_rotate)
qed

lemma CallSync_unknown_group:
  assumes "kites k \<noteq> []" and "filter (\<lambda>r. Kitename r = kite) (kites k) = []"
  shows "CallSync E k kite method args =
     Inr (k\<lparr>List_calls := Suc (List_calls k)\<rparr>,
          Inl (errorString (''kite '' @ kite @ '' does not exist'')))"
proof -
  have "filter (\<lambda>r. Kitename r = kite) (snd (kites_List k)) = []"
    using length_candidates [of "\<lambda>r. Kitename r = kite" k] assms(2) by simp
  then show ?thesis
    using assms(1)
    by (simp add: CallSync_def getRemoteKite_def roundRobin_def RemoteKites_eq)
qed

text \<open>
  C1: while the registry has no entry of the requested name, \<open>CallSync\<close> is to return
  an error naming it and leave the registry as it is. With an empty registry it does
  not return: \<open>RemoteKites\<close> asks \<open>make\<close> for a capacity of \<open>-1\<close> and the call
  panics. (With a registry that holds other kites only, \<open>CallSync_unknown_group\<close>
  above gives the error, and the registry keeps its content.)
\<close>

theorem CallSync_empty_registry_panics:
  "CallSync E (k\<lparr>kites := []\<rparr>) kite method args = Inl MakesliceCapOutOfRange"
  by (simp add: CallSync_def getRemoteKite_def roundRobin_def RemoteKites_eq)

text \<open>
  C2, as amended: let the registry list its peers in the same order \<open>l\<close> at every
  snapshot, let \<open>rs\<close> be the \<open>n > 0\<close> peers of the name in that order (they are the
  registry's peers of the name), and let the stored index \<open>i\<close> (0 if the name is
  unseen) be one \<open>roundRobin\<close> can have stored, \<open>0 \<le> i\<close> and \<open>i + 1 < 2 ^ 53\<close>, with
  \<open>n < 2 ^ 53\<close>. Then one resolution selects index \<open>(i + 1) mod n\<close> and stores it;
  \<open>n\<close> resolutions in a row return \<open>rs\<close> rotated by \<open>i + 1\<close>, so each of the \<open>n\<close> peers
  exactly once, and the next one returns the first of them again.
\<close>

theorem roundRobin_visits_each_peer_once:
  assumes "\<And>c. List_order k c (kites k) = l" and "mset l = mset (kites k)"
    and "filter (\<lambda>r. Kitename r = kite) l = rs" and "rs \<noteq> []"
    and "int (length rs) < 2 ^ 53"
    and "0 \<le> GetIndex (balance k) kite" and "GetIndex (balance k) kite + 1 < 2 ^ 53"
  shows "roundRobin k kite =
       Inr (k\<lparr>List_calls := Suc (List_calls k),
              balance := AddOrUpdateIndex (balance k) kite
                   ((GetIndex (balance k) kite + 1) mod int (length rs))\<rparr>,
            Inr (rs ! nat ((GetIndex (balance k) kite + 1) mod int (length rs))))
     \<and> mset rs = mset (filter (\<lambda>r. Kitename r = kite) (kites k))
     \<and> roundRobin_times (length rs) k kite =
       map (\<lambda>r. Inr (Inr r)) (rotate (nat (GetIndex (balance k) kite) + 1) rs)
     \<and> mset (roundRobin_times (length rs) k kite) = mset (map (\<lambda>r. Inr (Inr r)) rs)
     \<and> roundRobin_times (Suc (length rs)) k kite ! length rs =
       roundRobin_times (Suc (length rs)) k kite ! 0"
proof -
  note rot = roundRobin_times_rotate [OF assms]
  have reg: "mset rs = mset (filter (\<lambda>r. Kitename r = kite) (kites k))"
    using assms(2,3) by (metis mset_filter)
  have once: "mset (roundRobin_times (length rs) k kite) = mset (map (\<lambda>r. Inr (Inr r)) rs)"
    unfolding rot by (simp only: mset_map mset_rotate_eq)
  have again: "roundRobin_times (Suc (length rs)) k kite ! length rs =
       roundRobin_times (Suc (length rs)) k kite ! 0"
  proof -
    have "(nat (GetIndex (balance k) kite) + 1 + length rs) mod length rs =
        (nat (GetIndex (balance k) kite) + 1 + 0) mod length rs"
      by (simp only: mod_add_self2 add_0_right)
    then show ?thesis
      unfolding roundRobin_times_eq [OF assms]
      by (simp only: nth_map_upt0 [OF lessI] nth_map_upt0 [OF zero_less_Suc])
  qed
  show ?thesis
    using roundRobin_step_stable [OF assms] reg rot once again by blast
qed

theorem roundRobin_visits_each_peer_once_witness:
  "roundRobin_times 3 (demo_node\<lparr>kites := demo_registry\<rparr>) ''user/db'' =
     [Inr (Inr (demo_peer ''user/db'' ''10.0.0.4:4000'')),
      Inr (Inr (demo_peer ''user/db'' ''10.0.0.5:4000'')),
      Inr (Inr (demo_peer ''user/db'' ''10.0.0.2:4000''))]"
proof -
  let ?k = "demo_node\<lparr>kites := demo_registry\<rparr>"
  let ?rs = "[demo_peer ''user/db'' ''10.0.0.2:4000'', demo_peer ''user/db'' ''10.0.0.4:4000'',
      demo_peer ''user/db'' ''10.0.0.5:4000'']"
  have st: "\<And>c. List_order ?k c (kites ?k) = demo_registry"
    by (simp add: demo_node_def)
  have ms: "mset demo_registry = mset (kites ?k)"
    by simp
  have a: "filter (\<lambda>r. Kitename r = ''user/db'') demo_registry = ?rs"
    by (simp add: demo_registry_def demo_peer_def zero_Kite_def)
  have b: "?rs \<noteq> []" by simp
  have len: "int (length ?rs) < 2 ^ 53" by simp
  have c: "0 \<le> GetIndex (balance ?k) ''user/db''"
    by (simp add: GetIndex_def demo_node_def)
  have hi: "GetIndex (balance ?k) ''user/db'' + 1 < 2 ^ 53"
    by (simp add: GetIndex_def demo_node_def)
  have d: "nat (GetIndex (balance ?k) ''user/db'') + 1 = Suc 0"
    by (simp add: GetIndex_def demo_node_def)
  note h = roundRobin_visits_each_peer_once [OF st ms a b len c hi]
  have "roundRobin_times (length ?rs) ?k ''user/db'' = map (\<lambda>r. Inr (Inr r)) (rotate (Suc 0) ?rs)"
    using h [THEN conjunct2, THEN conjunct2, THEN conjunct1] by (simp only: d)
  then show ?thesis by (simp add: numeral_3_eq_3)
qed

text \<open>
  C2, as stated, has no condition on the order of the snapshots. With two peers of a
  name, listed in one order at the first resolution and in the other at the second,
  the two resolutions select index 1 and then index 0 and return the same peer twice;
  the other peer is not visited.
\<close>

theorem roundRobin_repeats_peer_when_order_changes:
  "roundRobin_times 2
     (demo_node\<lparr>kites := [demo_peer ''user/db'' ''10.0.0.2:4000'',
                           demo_peer ''user/db'' ''10.0.0.4:4000''],
                 List_order := (\<lambda>c ps. if c = 0 then ps else rev ps)\<rparr>) ''user/db'' =
     [Inr (Inr (demo_peer ''user/db'' ''10.0.0.4:4000'')),
      Inr (Inr (demo_peer ''user/db'' ''10.0.0.4:4000''))]"
proof -
  let ?a = "demo_peer ''user/db'' ''10.0.0.2:4000''"
  let ?b = "demo_peer ''user/db'' ''10.0.0.4:4000''"
  let ?k = "demo_node\<lparr>kites := [?a, ?b],
      List_order := (\<lambda>c ps. if c = 0 then ps else rev ps)\<rparr>"
  let ?k1 = "?k\<lparr>List_calls := Suc 0, balance := [''user/db'' \<mapsto> 1]\<rparr>"
  have n: "Kitename ?a = ''user/db''" "Kitename ?b = ''user/db''"
    by (simp_all add: demo_peer_def zero_Kite_def)
  have c0: "List_calls ?k = 0" and b0: "balance ?k = Map.empty"
    by (simp_all add: demo_node_def)
  have s0: "filter (\<lambda>r. Kitename r = ''user/db'') (snd (kites_List ?k)) = [?a, ?b]"
    by (simp add: kites_List_def Let_def c0 n)
  have r0: "roundRobin ?k ''user/db'' = Inr (?k1, Inr ?b)"
    using roundRobin_step [OF s0]
    by (simp add: GetIndex_def AddOrUpdateIndex_def b0 c0 float64_exact)
  have s1: "filter (\<lambda>r. Kitename r = ''user/db'') (snd (kites_List ?k1)) = [?b, ?a]"
    by (simp add: kites_List_def Let_def n)
  have "\<exists>k2. roundRobin ?k1 ''user/db'' = Inr (k2, Inr ?b)"
    using roundRobin_step [OF s1]
    by (simp add: GetIndex_def AddOrUpdateIndex_def float64_exact)
  then obtain k2 where r1: "roundRobin ?k1 ''user/db'' = Inr (k2, Inr ?b)" ..
  show ?thesis
    by (simp add: numeral_2_eq_2 r0 r1)
qed

text \<open>
  C3: for every index \<open>i\<close> stored for a name, \<open>0 \<le> i\<close> and below the largest \<open>int\<close>
  (\<open>roundRobin\<close>, the only writer, stores indices below the size of the registry: lemma
  \<open>roundRobin_stores_in_range\<close>), also one left from a larger group, and every
  number \<open>m > 0\<close> of peers of the name now in the registry (\<open>m < 2 ^ 53\<close>), the next
  resolution does not panic: the index it selects is the remainder of
  \<open>float64(i + 1)\<close> by \<open>m\<close>, which is \<open>(i + 1) mod m\<close> while \<open>i + 1 < 2 ^ 53\<close>; it is below
  \<open>m\<close>, the peer returned is the candidate at that index, and the index is stored.
\<close>

theorem roundRobin_index_in_bounds:
  assumes "filter (\<lambda>r. Kitename r = kite) (kites k) \<noteq> []"
    and "int (length (filter (\<lambda>r. Kitename r = kite) (kites k))) < 2 ^ 53"
    and "balance k kite = Some i" and "0 \<le> i" and "i < 2 ^ 63 - 1"
  shows "\<exists>n k1 rs. roundRobin k kite = Inr (k1, Inr (rs ! n))
     \<and> mset rs = mset (filter (\<lambda>r. Kitename r = kite) (kites k))
     \<and> n < length (filter (\<lambda>r. Kitename r = kite) (kites k))
     \<and> int n = math_Mod (float64 (int64_wrap (i + 1)))
                 (float64 (int (length (filter (\<lambda>r. Kitename r = kite) (kites k)))))
     \<and> int n = (if i + 1 < 2 ^ 53
                then (i + 1) mod int (length (filter (\<lambda>r. Kitename r = kite) (kites k)))
                else float64 (i + 1) mod int (length (filter (\<lambda>r. Kitename r = kite) (kites k))))
     \<and> balance k1 kite = Some (int n) \<and> kites k1 = kites k"
proof -
  let ?rs = "filter (\<lambda>r. Kitename r = kite) (snd (kites_List k))"
  let ?m = "int (length (filter (\<lambda>r. Kitename r = kite) (kites k)))"
  let ?x = "float64 (i + 1) mod ?m"
  let ?k1 = "k\<lparr>List_calls := Suc (List_calls k),
      balance := AddOrUpdateIndex (balance k) kite ?x\<rparr>"
  have ln: "length ?rs = length (filter (\<lambda>r. Kitename r = kite) (kites k))"
    by (rule length_candidates)
  have ne: "?rs \<noteq> []"
    using assms(1) ln by (metis length_0_conv)
  have len: "int (length ?rs) < 2 ^ 53"
    using assms(2) by (simp only: ln)
  have g: "GetIndex (balance k) kite = i"
    using assms(3) by (simp add: GetIndex_def)
  have lo: "0 \<le> GetIndex (balance k) kite" and hi: "GetIndex (balance k) kite < 2 ^ 63 - 1"
    using assms(4,5) by (simp_all add: g)
  have step: "roundRobin k kite = Inr (?k1, Inr (?rs ! nat ?x))"
    using roundRobin_step [OF refl ne len lo hi] by (simp only: g ln)
  have pos: "0 < ?m"
    using assms(1) by simp
  have x0: "0 \<le> ?x" and x1: "?x < ?m"
    using pos by simp_all
  have w: "int64_wrap (i + 1) = i + 1"
    using assms(4,5) by (simp add: int64_wrap_id)
  have N: "float64 ?m = ?m"
    using assms(2) by (simp add: float64_exact)
  have f: "0 \<le> float64 (i + 1)"
    using assms(4) by (simp add: float64_nonneg)
  have c1: "mset ?rs = mset (filter (\<lambda>r. Kitename r = kite) (kites k))"
    by (rule mset_candidates)
  have c2: "nat ?x < length (filter (\<lambda>r. Kitename r = kite) (kites k))"
    using x0 x1 by linarith
  have c3: "int (nat ?x) = math_Mod (float64 (int64_wrap (i + 1))) (float64 ?m)"
    using x0 by (simp add: w N math_Mod_nonneg [OF f pos])
  have c4: "int (nat ?x) = (if i + 1 < 2 ^ 53 then (i + 1) mod ?m else float64 (i + 1) mod ?m)"
    using x0 assms(4) by (simp add: float64_exact)
  have c5: "balance ?k1 kite = Some (int (nat ?x))"
    using x0 by (simp add: AddOrUpdateIndex_def)
  have c6: "kites ?k1 = kites k"
    by simp
  show ?thesis
    using step c1 c2 c3 c4 c5 c6 by blast
qed

theorem roundRobin_index_in_bounds_witness:
  "\<exists>n k1 rs. roundRobin (demo_node\<lparr>kites := demo_registry, balance := [''user/db'' \<mapsto> 7]\<rparr>)
        ''user/db'' = Inr (k1, Inr (rs ! n))
     \<and> mset rs = mset [demo_peer ''user/db'' ''10.0.0.2:4000'',
          demo_peer ''user/db'' ''10.0.0.4:4000'', demo_peer ''user/db'' ''10.0.0.5:4000'']
     \<and> n < 3 \<and> int n = 2 \<and> balance k1 ''user/db'' = Some (int n)"
proof -
  let ?k = "demo_node\<lparr>kites := demo_registry, balance := [''user/db'' \<mapsto> 7]\<rparr>"
  let ?rs = "[demo_peer ''user/db'' ''10.0.0.2:4000'', demo_peer ''user/db'' ''10.0.0.4:4000'',
      demo_peer ''user/db'' ''10.0.0.5:4000'']"
  have a: "filter (\<lambda>r. Kitename r = ''user/db'') (kites ?k) = ?rs"
    by (simp add: demo_registry_def demo_peer_def zero_Kite_def)
  have ne: "filter (\<lambda>r. Kitename r = ''user/db'') (kites ?k) \<noteq> []"
    unfolding a by simp
  have len: "int (length (filter (\<lambda>r. Kitename r = ''user/db'') (kites ?k))) < 2 ^ 53"
    unfolding a by simp
  have c: "balance ?k ''user/db'' = Some 7" by simp
  have lo: "(0::int) \<le> 7" and hi: "(7::int) < 2 ^ 63 - 1" by simp_all
  from roundRobin_index_in_bounds [OF ne len c lo hi]
  obtain n k1 rs where h: "roundRobin ?k ''user/db'' = Inr (k1, Inr (rs ! n))"
      "mset rs = mset (filter (\<lambda>r. Kitename r = ''user/db'') (kites ?k))"
      "n < length (filter (\<lambda>r. Kitename r = ''user/db'') (kites ?k))"
      "int n = (if (7::int) + 1 < 2 ^ 53
                then (7 + 1) mod int (length (filter (\<lambda>r. Kitename r = ''user/db'') (kites ?k)))
                else float64 (7 + 1) mod int (length (filter (\<lambda>r. Kitename r = ''user/db'') (kites ?k))))"
      "balance k1 ''user/db'' = Some (int n)"
    by blast
  have "n < 3" using h(3) unfolding a by simp
  moreover have "int n = 2" using h(4) unfolding a by simp
  moreover have "mset rs = mset ?rs" using h(2) unfolding a .
  ultimately show ?thesis using h(1,5) by blast
qed

text \<open>
  Outside the range of these theorems the model follows the source: above \<open>2 ^ 53\<close>
  the conversion rounds, and at the largest \<open>int\<close> the sum \<open>index + 1\<close> wraps around
  and the selection panics.
\<close>

lemma roundRobin_rounds_above_2_53:
  assumes "length (filter (\<lambda>r. Kitename r = kite) (kites k)) = 3"
    and "balance k kite = Some (2 ^ 53)"
  shows "\<exists>k1 rs. roundRobin k kite = Inr (k1, Inr (rs ! 2)) \<and> balance k1 kite = Some 2"
proof -
  have l: "length (filter (\<lambda>r. Kitename r = kite) (snd (kites_List k))) = 3"
    using assms(1) by (simp only: length_candidates)
  have kne: "kites k \<noteq> []"
    using assms(1) by auto
  have g: "GetIndex (balance k) kite = 2 ^ 53"
    using assms(2) by (simp add: GetIndex_def)
  have n: "math_Mod (float64 (int64_wrap (2 ^ 53 + 1))) (float64 3) = 2"
    by (rule index_after_2_53)
  have ne: "filter (\<lambda>r. Kitename r = kite) (snd (kites_List k)) \<noteq> []"
    using l by auto
  show ?thesis
    using kne l n ne by (auto simp: roundRobin_def RemoteKites_eq Let_def g AddOrUpdateIndex_def)
qed

lemma roundRobin_panics_at_MaxInt64:
  assumes "length (filter (\<lambda>r. Kitename r = kite) (kites k)) = 3"
    and "balance k kite = Some (2 ^ 63 - 1)"
  shows "roundRobin k kite = Inl IndexOutOfRange"
proof -
  have l: "length (filter (\<lambda>r. Kitename r = kite) (snd (kites_List k))) = 3"
    using assms(1) by (simp only: length_candidates)
  have kne: "kites k \<noteq> []"
    using assms(1) by auto
  have g: "GetIndex (balance k) kite = 2 ^ 63 - 1"
    using assms(2) by (simp add: GetIndex_def)
  have n: "math_Mod (float64 (int64_wrap (2 ^ 63 - 1 + 1))) (float64 3) = - 2"
    by (rule index_after_MaxInt64)
  have ne: "filter (\<lambda>r. Kitename r = kite) (snd (kites_List k)) \<noteq> []"
    using l by auto
  show ?thesis
    using kne l n ne by (simp add: roundRobin_def RemoteKites_eq Let_def g)
qed

section \<open>Coordination with Kontrol\<close>

lemma Action_pong_Request: "Action (pong_Request k) = ''pong''"
  by (simp add: pong_Request_def)

lemma Action_register_Request: "Action (register_Request k) = ''register''"
  by (simp add: register_Request_def)

lemma Pong_eq:
  "Pong E k =
     (if Send E (sent k) (pong_Request k) = ''UPDATE''
      then k\<lparr>sent := sent k @ [pong_Request k], Registered := False\<rparr>
      else k\<lparr>sent := sent k @ [pong_Request k]\<rparr>)"
  by (simp add: Pong_def Let_def)

lemma sent_Pong: "sent (Pong E k) = sent k @ [pong_Request k]"
  by (simp add: Pong_eq)


lemma Registered_Pong:
  "Registered (Pong E k) = (Registered k \<and> Send E (sent k) (pong_Request k) \<noteq> ''UPDATE'')"
  by (simp add: Pong_eq)

lemma PeersAddr_eq:
  "PeersAddr k = (k\<lparr>List_calls := Suc (List_calls k)\<rparr>, map Addr (snd (kites_List k)))"
  by (simp add: PeersAddr_def kites_List_def Let_def)

lemma sent_AddKite: "sent (AddKite k r) = sent k"
  by (simp add: AddKite_def SetPeers_def PeersAddr_eq Let_def)

lemma sent_RemoveKite: "sent (RemoveKite k r) = sent k"
  by (simp add: RemoveKite_def PeersAddr_eq)

lemma sent_InitializeKite:
  "sent (InitializeKite E k) =
     (if Registered k then sent k else sent k @ [register_Request k])"
  by (simp add: InitializeKite_def RegisterToKontrol_def Let_def split: sum.splits)

lemma action_names_distinct:
  "protocol_AddKite \<noteq> ''ping''" "protocol_RemoveKite \<noteq> ''ping''"
  "protocol_UpdateKite \<noteq> ''ping''" "protocol_AddKite \<noteq> protocol_RemoveKite"
  "protocol_AddKite \<noteq> protocol_UpdateKite" "protocol_RemoveKite \<noteq> protocol_UpdateKite"
  by (simp_all add: protocol_AddKite_def protocol_RemoveKite_def protocol_UpdateKite_def)

lemma sent_handle:
  assumes "Unmarshal_PubResponse E msg = Inr r"
  shows "sent (handle E k msg) =
     sent k @ pong_Request k #
       (if Action r = ''ping'' \<and> \<not> Registered (Pong E k) then [register_Request (Pong E k)] else [])"
  using assms action_names_distinct
  by (auto simp: handle_def Let_def sent_Pong sent_AddKite sent_RemoveKite sent_InitializeKite)

lemma registrations_handle:
  assumes "Unmarshal_PubResponse E msg = Inr r" and "\<not> Registered k"
  shows "registrations (requests_since k (handle E k msg)) = (if Action r = ''ping'' then 1 else 0)"
  using assms(2)
  by (simp add: sent_handle [OF assms(1)] requests_since_def registrations_def Registered_Pong
      Action_pong_Request Action_register_Request)

lemma handle_UpdateKite:
  assumes "Unmarshal_PubResponse E msg = Inr r" and "Action r = protocol_UpdateKite"
  shows "\<not> Registered (handle E k msg)"
  using assms action_names_distinct by (simp add: handle_def Let_def)

text \<open>
  C4, as amended: in every state, handling a decoded \<open>updateKite\<close> broadcast leaves the
  registered flag false; of the broadcasts that follow, a \<open>ping\<close> sends exactly one
  register request, and a broadcast of any other action sends none.
\<close>

theorem updateKite_then_ping_registers_once:
  assumes "Unmarshal_PubResponse E msg = Inr r" and "Action r = protocol_UpdateKite"
    and "Unmarshal_PubResponse E msg2 = Inr r2"
  shows "\<not> Registered (handle E k msg) \<and>
     registrations (requests_since (handle E k msg) (handle E (handle E k msg) msg2)) =
       (if Action r2 = ''ping'' then 1 else 0)"
  using handle_UpdateKite [OF assms(1,2)] registrations_handle [OF assms(3)] by simp

lemma demo_Unmarshal: "Unmarshal_PubResponse (demo_env as) b = Inr (demo_pub b)"
  by (simp add: demo_env_def)

lemma Action_demo_pub: "Action (demo_pub b) = b"
  by (simp add: demo_pub_def)

theorem updateKite_then_ping_registers_once_witness:
  "\<not> Registered (handle (demo_env []) (demo_node\<lparr>Registered := True\<rparr>) ''updateKite'') \<and>
     registrations (requests_since
        (handle (demo_env []) (demo_node\<lparr>Registered := True\<rparr>) ''updateKite'')
        (handle (demo_env []) (handle (demo_env []) (demo_node\<lparr>Registered := True\<rparr>) ''updateKite'')
           ''ping'')) = 1"
proof -
  have a: "Unmarshal_PubResponse (demo_env []) ''updateKite'' = Inr (demo_pub ''updateKite'')"
    by (rule demo_Unmarshal)
  have b: "Action (demo_pub ''updateKite'') = protocol_UpdateKite"
    by (simp add: Action_demo_pub protocol_UpdateKite_def)
  have c: "Unmarshal_PubResponse (demo_env []) ''ping'' = Inr (demo_pub ''ping'')"
    by (rule demo_Unmarshal)
  from updateKite_then_ping_registers_once [OF a b c, of "demo_node\<lparr>Registered := True\<rparr>"]
  show ?thesis by (simp add: Action_demo_pub)
qed

text \<open>
  C4, as stated, asks that the next broadcast of any action triggers registration once.
  After \<open>updateKite\<close>, an \<open>addKite\<close> broadcast sends no register request: only the
  \<open>ping\<close> branch of \<open>handle\<close> calls \<open>InitializeKite\<close>.
\<close>

theorem updateKite_then_addKite_no_registration:
  "\<not> Registered (handle (demo_env []) (demo_node\<lparr>Registered := True\<rparr>) ''updateKite'') \<and>
     registrations (requests_since
        (handle (demo_env []) (demo_node\<lparr>Registered := True\<rparr>) ''updateKite'')
        (handle (demo_env []) (handle (demo_env []) (demo_node\<lparr>Registered := True\<rparr>) ''updateKite'')
           ''addKite'')) = 0"
proof -
  let ?k1 = "handle (demo_env []) (demo_node\<lparr>Registered := True\<rparr>) ''updateKite''"
  have a: "\<not> Registered ?k1"
    by (rule handle_UpdateKite [OF demo_Unmarshal]) (simp add: Action_demo_pub protocol_UpdateKite_def)
  have "registrations (requests_since ?k1 (handle (demo_env []) ?k1 ''addKite'')) = 0"
    using registrations_handle [OF demo_Unmarshal a, of "[]" "''addKite''"]
    by (simp add: Action_demo_pub)
  with a show ?thesis by simp
qed








lemma RegisterToKontrol_eq:
  "RegisterToKontrol E k =
     (k\<lparr>sent := sent k @ [register_Request k]\<rparr>,
      case Unmarshal_RegisterResponse E (Send E (sent k) (register_Request k)) of
        Inl err \<Rightarrow> Some err
      | Inr res \<Rightarrow>
          if res = protocol_AllowKite then None
          else if res = protocol_PermitKite then Some (errorString ''no permission to run'')
          else Some (errorString ''got a nonstandard response''))"
  by (simp add: RegisterToKontrol_def Let_def split: sum.splits)

lemma InitializeKite_unregistered:
  assumes "\<not> Registered k"
  shows "InitializeKite E k =
     (case snd (RegisterToKontrol E k) of
        Some err \<Rightarrow> k\<lparr>sent := sent k @ [register_Request k]\<rparr>
      | None \<Rightarrow> k\<lparr>sent := sent k @ [register_Request k], OnceServer := True,
                   Registered := True\<rparr>)"
  using assms by (simp add: InitializeKite_def RegisterToKontrol_eq split: option.splits)

text \<open>
  C9, as amended: for a registration attempt of an unregistered node whose answer
  decodes, \<open>allow\<close> gives a nil error and the node is registered; \<open>deny\<close> gives the error
  \<open>no permission to run\<close>, one register request is sent, the node stays as it was but
  for that request, and the next \<open>ping\<close> broadcast makes a new attempt; any other
  result gives the error \<open>got a nonstandard response\<close> and the node stays unregistered.
\<close>

theorem registration_outcome:
  assumes "\<not> Registered k"
    and "Unmarshal_RegisterResponse E (Send E (sent k) (register_Request k)) = Inr res"
  shows "(res = protocol_AllowKite \<longrightarrow>
        snd (RegisterToKontrol E k) = None \<and>
        InitializeKite E k =
          k\<lparr>sent := sent k @ [register_Request k], OnceServer := True, Registered := True\<rparr>)
     \<and> (res = protocol_PermitKite \<longrightarrow>
        snd (RegisterToKontrol E k) = Some (errorString ''no permission to run'') \<and>
        InitializeKite E k = k\<lparr>sent := sent k @ [register_Request k]\<rparr> \<and>
        (\<forall>msg r. Unmarshal_PubResponse E msg = Inr r \<and> Action r = ''ping'' \<longrightarrow>
           registrations (requests_since (InitializeKite E k)
             (handle E (InitializeKite E k) msg)) = 1))
     \<and> (res \<noteq> protocol_AllowKite \<and> res \<noteq> protocol_PermitKite \<longrightarrow>
        snd (RegisterToKontrol E k) = Some (errorString ''got a nonstandard response'') \<and>
        InitializeKite E k = k\<lparr>sent := sent k @ [register_Request k]\<rparr>)"
proof -
  have neq: "protocol_PermitKite \<noteq> protocol_AllowKite"
    by (simp add: protocol_PermitKite_def protocol_AllowKite_def)
  have allow: "snd (RegisterToKontrol E k) = None" if "res = protocol_AllowKite"
    using that assms(2) by (simp add: RegisterToKontrol_eq)
  have deny: "snd (RegisterToKontrol E k) = Some (errorString ''no permission to run'')"
    if "res = protocol_PermitKite"
    using that assms(2) neq by (simp add: RegisterToKontrol_eq)
  have other: "snd (RegisterToKontrol E k) = Some (errorString ''got a nonstandard response'')"
    if "res \<noteq> protocol_AllowKite" "res \<noteq> protocol_PermitKite"
    using that assms(2) by (simp add: RegisterToKontrol_eq)
  have again: "registrations (requests_since (InitializeKite E k)
       (handle E (InitializeKite E k) msg)) = 1"
    if "res = protocol_PermitKite" "Unmarshal_PubResponse E msg = Inr r" "Action r = ''ping''"
    for msg r
  proof -
    have "\<not> Registered (InitializeKite E k)"
      using assms(1) by (simp add: InitializeKite_unregistered [OF assms(1)] deny [OF that(1)])
    from registrations_handle [OF that(2) this] that(3) show ?thesis by simp
  qed
  show ?thesis
    using allow deny other again
    by (auto simp: InitializeKite_unregistered [OF assms(1)])
qed

theorem registration_outcome_witness:
  "snd (RegisterToKontrol (demo_env [''deny'']) demo_node) =
      Some (errorString ''no permission to run'')
   \<and> InitializeKite (demo_env [''deny'']) demo_node =
      demo_node\<lparr>sent := sent demo_node @ [register_Request demo_node]\<rparr>
   \<and> registrations (requests_since (InitializeKite (demo_env [''deny'']) demo_node)
        (handle (demo_env [''deny'']) (InitializeKite (demo_env [''deny'']) demo_node) ''ping'')) = 1"
proof -
  have a: "\<not> Registered demo_node"
    by (simp add: demo_node_def)
  have b: "Unmarshal_RegisterResponse (demo_env [''deny''])
       (Send (demo_env [''deny'']) (sent demo_node) (register_Request demo_node)) = Inr ''deny''"
    by (simp add: demo_env_def demo_node_def Action_register_Request registrations_def)
  have d: "''deny'' = protocol_PermitKite"
    by (simp add: protocol_PermitKite_def)
  have e: "Action (demo_pub ''ping'') = ''ping''"
    by (rule Action_demo_pub)
  note o = registration_outcome [OF a b, THEN conjunct2, THEN conjunct1, THEN mp, OF d]
  note o3 = o [THEN conjunct2, THEN conjunct2, THEN spec, THEN spec, THEN mp,
      OF conjI, OF demo_Unmarshal e]
  show ?thesis
    using o [THEN conjunct1] o [THEN conjunct2, THEN conjunct1] o3 by blast
qed

text \<open>
  C9, as stated, makes a denied registration a permanent failure with no retry. A node
  denied at its first \<open>ping\<close> sends a new register request at the next \<open>ping\<close> and,
  allowed then, is registered.
\<close>

theorem denied_registration_is_retried:
  "snd (RegisterToKontrol (demo_env [''deny'', ''allow'']) demo_node) =
      Some (errorString ''no permission to run'')
   \<and> \<not> Registered (handle (demo_env [''deny'', ''allow'']) demo_node ''ping'')
   \<and> registrations (requests_since
        (handle (demo_env [''deny'', ''allow'']) demo_node ''ping'')
        (handle (demo_env [''deny'', ''allow''])
           (handle (demo_env [''deny'', ''allow'']) demo_node ''ping'') ''ping'')) = 1
   \<and> Registered (handle (demo_env [''deny'', ''allow''])
        (handle (demo_env [''deny'', ''allow'']) demo_node ''ping'') ''ping'')"
proof -
  let ?E = "demo_env [''deny'', ''allow'']"
  have send: "Send ?E hist m =
     (if Action m = ''register'' \<and> registrations hist < 2
      then [''deny'', ''allow''] ! registrations hist else [])" for hist m
    by (simp add: demo_env_def)
  have um: "Unmarshal_RegisterResponse ?E b = Inr b" for b
    by (simp add: demo_env_def)
  have s0: "sent demo_node = []" and r0: "\<not> Registered demo_node"
    by (simp_all add: demo_node_def)
  have p0: "Pong ?E demo_node = demo_node\<lparr>sent := [pong_Request demo_node]\<rparr>"
    by (simp add: Pong_eq send s0 Action_pong_Request)
  have reg0: "snd (RegisterToKontrol ?E demo_node) = Some (errorString ''no permission to run'')"
    by (simp add: RegisterToKontrol_eq send um s0 Action_register_Request registrations_def
        protocol_AllowKite_def protocol_PermitKite_def)
  let ?k0 = "demo_node\<lparr>sent := [pong_Request demo_node]\<rparr>"
  have reg1: "snd (RegisterToKontrol ?E ?k0) = Some (errorString ''no permission to run'')"
    by (simp add: RegisterToKontrol_eq send um Action_register_Request Action_pong_Request
        registrations_def protocol_AllowKite_def protocol_PermitKite_def)
  have rk0: "\<not> Registered ?k0" using r0 by simp
  have k1: "handle ?E demo_node ''ping'' =
      demo_node\<lparr>sent := [pong_Request demo_node, register_Request ?k0]\<rparr>"
    by (simp add: handle_def demo_Unmarshal Action_demo_pub Let_def p0 action_names_distinct
        protocol_AddKite_def protocol_RemoveKite_def protocol_UpdateKite_def
        InitializeKite_unregistered [OF rk0] reg1)
  let ?k1 = "demo_node\<lparr>sent := [pong_Request demo_node, register_Request ?k0]\<rparr>"
  have r1: "\<not> Registered ?k1" using r0 by simp
  let ?k2 = "demo_node\<lparr>sent := [pong_Request demo_node, register_Request ?k0,
      pong_Request ?k1]\<rparr>"
  have p1: "Pong ?E ?k1 = ?k2"
    by (simp add: Pong_eq send Action_pong_Request)
  have reg2: "snd (RegisterToKontrol ?E ?k2) = None"
    by (simp add: RegisterToKontrol_eq send um Action_register_Request Action_pong_Request
        registrations_def protocol_AllowKite_def protocol_PermitKite_def)
  have r2: "\<not> Registered ?k2" using r0 by simp
  have k2: "Registered (handle ?E ?k1 ''ping'')"
    by (simp add: handle_def demo_Unmarshal Action_demo_pub Let_def p1
        protocol_AddKite_def protocol_RemoveKite_def protocol_UpdateKite_def
        InitializeKite_unregistered [OF r2] reg2)
  have n: "registrations (requests_since ?k1 (handle ?E ?k1 ''ping'')) = 1"
    using registrations_handle [OF demo_Unmarshal r1, of "[''deny'', ''allow'']" "''ping''"]
    by (simp add: Action_demo_pub)
  show ?thesis
    unfolding k1 using reg0 r1 n k2 by simp
qed

lemma kites_handle_add_remove:
  assumes "Unmarshal_PubResponse E msg = Inr r"
    and "Action r = protocol_AddKite \<or> Action r = protocol_RemoveKite"
    and "\<not> Registered k"
  shows "handle E k msg = Pong E k"
  using assms action_names_distinct
  by (auto simp: handle_def Let_def AddKite_def RemoveKite_def Registered_Pong)

text \<open>
  C10: while the registered flag is false, handling an \<open>addKite\<close> or \<open>removeKite\<close>
  broadcast leaves the registry (and the peers of the cache pool) unchanged, \<open>AddKite\<close>
  and \<open>RemoveKite\<close> returning at once; a broadcast of these that changes the registry
  found the node registered.
\<close>

theorem unregistered_node_drops_add_remove:
  assumes "Unmarshal_PubResponse E msg = Inr r"
    and "Action r = protocol_AddKite \<or> Action r = protocol_RemoveKite"
  shows "(\<not> Registered k \<longrightarrow>
        kites (handle E k msg) = kites k \<and> pool_peers (handle E k msg) = pool_peers k \<and>
        AddKite k r = k \<and> RemoveKite k r = k)
     \<and> (kites (handle E k msg) \<noteq> kites k \<longrightarrow> Registered k)"
proof -
  have "kites (handle E k msg) = kites k \<and> pool_peers (handle E k msg) = pool_peers k"
    if "\<not> Registered k"
    using kites_handle_add_remove [OF assms that] by (simp add: Pong_eq)
  then show ?thesis
    by (auto simp: AddKite_def RemoveKite_def)
qed

theorem unregistered_node_drops_add_remove_witness:
  "kites (handle (demo_env []) demo_node ''addKite'') = [] \<and>
   pool_peers (handle (demo_env []) demo_node ''addKite'') = [] \<and>
   AddKite demo_node (demo_pub ''addKite'') = demo_node \<and>
   kites (handle (demo_env []) (demo_node\<lparr>Registered := True\<rparr>) ''addKite'') \<noteq> []"
proof -
  have a: "Unmarshal_PubResponse (demo_env []) ''addKite'' = Inr (demo_pub ''addKite'')"
    by (rule demo_Unmarshal)
  have b: "Action (demo_pub ''addKite'') = protocol_AddKite \<or>
      Action (demo_pub ''addKite'') = protocol_RemoveKite"
    by (simp add: Action_demo_pub protocol_AddKite_def)
  have c: "\<not> Registered demo_node" "kites demo_node = []" "pool_peers demo_node = []"
    by (simp_all add: demo_node_def)
  have d: "kites (handle (demo_env []) (demo_node\<lparr>Registered := True\<rparr>) ''addKite'') \<noteq> []"
    by (simp add: handle_def demo_Unmarshal Action_demo_pub Let_def protocol_AddKite_def
        Pong_eq AddKite_def SetPeers_def PeersAddr_eq demo_env_def c)
  from unregistered_node_drops_add_remove [OF a b, of demo_node] c d
  show ?thesis by simp
qed

section \<open>Dialling and resolving a remote kite\<close>

lemma kites_dialClient: "kites (fst (dialClient E k kite)) = kites k"
  by (simp add: dialClient_def Let_def split: sum.splits)

lemma net_since_append: "net_since k (k1\<lparr>net_log := net_log k @ evs\<rparr>) = evs"
  by (simp add: net_since_def)

lemma net_log_dialClient:
  "net_log (fst (dialClient E k kite)) =
     net_log k @
       (case net_Dial E (Addr kite) of
          Inl err \<Rightarrow> [NetDial (Addr kite) (Inl err)]
        | Inr conn \<Rightarrow>
            [NetDial (Addr kite) (Inr conn),
             WriteString conn (''CONNECT '' @ DefaultRPCPath @ '' HTTP/1.0'' @ [CHR 0x0A, CHR 0x0A]),
             ReadResponse conn] @
            (if http_ReadResponse E conn = Inr connected then [] else [Close conn]))"
  by (simp add: dialClient_def Let_def split: sum.splits)

lemma net_since_dialClient:
  "net_since k (fst (dialClient E k kite)) =
       (case net_Dial E (Addr kite) of
          Inl err \<Rightarrow> [NetDial (Addr kite) (Inl err)]
        | Inr conn \<Rightarrow>
            [NetDial (Addr kite) (Inr conn),
             WriteString conn (''CONNECT '' @ DefaultRPCPath @ '' HTTP/1.0'' @ [CHR 0x0A, CHR 0x0A]),
             ReadResponse conn] @
            (if http_ReadResponse E conn = Inr connected then [] else [Close conn]))"
  by (simp add: net_since_def net_log_dialClient)

lemma snd_dialClient:
  "snd (dialClient E k kite) =
     (case net_Dial E (Addr kite) of
        Inl err \<Rightarrow> Inl err
      | Inr conn \<Rightarrow>
          (case http_ReadResponse E conn of
             Inl err \<Rightarrow> Inl (OpError ''dial-http'' (''tcp '' @ Addr kite) err)
           | Inr status \<Rightarrow>
               if status = connected then Inr (ClientWithCodec conn)
               else Inl (OpError ''dial-http'' (''tcp '' @ Addr kite)
                      (errorString (''unexpected HTTP response: '' @ status)))))"
  by (simp add: dialClient_def Let_def split: sum.splits)

text \<open>
  C6: \<open>dialClient\<close> returns a client (and a nil error) if and only if the TCP connect
  succeeds and the status read back is exactly \<open>200 Connected to Go RPC\<close>; the client
  then wraps the connection dialled, which stays open. In every other case (connect
  refused, no or malformed response, another status) it returns an error and no
  client, and no connection is left open. Either way it dials once.
\<close>

theorem dialClient_handshake:
  "((\<exists>c. snd (dialClient E k kite) = Inr c) \<longleftrightarrow>
      (\<exists>conn. net_Dial E (Addr kite) = Inr conn \<and>
         http_ReadResponse E conn = Inr ''200 Connected to Go RPC''))
   \<and> (\<forall>c. snd (dialClient E k kite) = Inr c \<longrightarrow>
        net_Dial E (Addr kite) = Inr (case c of ClientWithCodec conn \<Rightarrow> conn) \<and>
        left_open (net_since k (fst (dialClient E k kite))) [] =
          [case c of ClientWithCodec conn \<Rightarrow> conn])
   \<and> (\<forall>err. snd (dialClient E k kite) = Inl err \<longrightarrow>
        left_open (net_since k (fst (dialClient E k kite))) [] = [])
   \<and> dial_attempts (net_since k (fst (dialClient E k kite))) = 1"
  by (auto simp: snd_dialClient net_since_dialClient connected_def split: sum.splits if_splits)

theorem dialClient_handshake_witness:
  "snd (dialClient (demo_env []\<lparr>http_ReadResponse := \<lambda>c. Inr ''200 OK''\<rparr>) demo_node
          (demo_peer ''user/db'' ''10.0.0.2:4000'')) =
     Inl (OpError ''dial-http'' ''tcp 10.0.0.2:4000''
            (errorString ''unexpected HTTP response: 200 OK''))
   \<and> left_open (net_since demo_node
          (fst (dialClient (demo_env []\<lparr>http_ReadResponse := \<lambda>c. Inr ''200 OK''\<rparr>) demo_node
             (demo_peer ''user/db'' ''10.0.0.2:4000'')))) [] = []
   \<and> snd (dialClient (demo_env []) demo_node (demo_peer ''user/db'' ''10.0.0.2:4000'')) =
     Inr (ClientWithCodec (Conn ''10.0.0.2:4000''))
   \<and> left_open (net_since demo_node
          (fst (dialClient (demo_env []) demo_node (demo_peer ''user/db'' ''10.0.0.2:4000'')))) [] =
     [Conn ''10.0.0.2:4000'']"
proof -
  let ?E = "demo_env []\<lparr>http_ReadResponse := \<lambda>c. Inr ''200 OK''\<rparr>"
  let ?p = "demo_peer ''user/db'' ''10.0.0.2:4000''"
  have a: "snd (dialClient ?E demo_node ?p) =
     Inl (OpError ''dial-http'' ''tcp 10.0.0.2:4000''
            (errorString ''unexpected HTTP response: 200 OK''))"
    by (simp add: snd_dialClient demo_env_def demo_peer_def zero_Kite_def connected_def)
  have b: "snd (dialClient (demo_env []) demo_node ?p) =
     Inr (ClientWithCodec (Conn ''10.0.0.2:4000''))"
    by (simp add: snd_dialClient demo_env_def demo_peer_def zero_Kite_def)
  note h1 = dialClient_handshake [of ?E demo_node ?p, THEN conjunct2, THEN conjunct2,
      THEN conjunct1, THEN spec, THEN mp, OF a]
  note h2 = dialClient_handshake [of "demo_env []" demo_node ?p, THEN conjunct2,
      THEN conjunct1, THEN spec, THEN mp, OF b, THEN conjunct2]
  show ?thesis
    using a b h1 h2 by simp
qed

lemma dialClient_dial_once:
  "dial_attempts (net_since k (fst (dialClient E k kite))) = 1"
  by (simp add: net_since_dialClient split: sum.splits)

lemma dialClient_dials_first:
  "hd (net_since k (fst (dialClient E k kite))) = NetDial (Addr kite) (net_Dial E (Addr kite))"
  by (simp add: net_since_dialClient split: sum.splits)

text \<open>
  C7: when the kite \<open>roundRobin\<close> selects has no client, \<open>getRemoteKite\<close> dials its
  address, once. If the dial fails, its error is the error of the resolution and the
  registry is as before; if it succeeds, the kite is returned with the client and
  added to the registry with it.
\<close>

theorem getRemoteKite_dials_uncached:
  assumes "roundRobin k kite = Inr (k1, Inr r)" and "Client r = None"
  shows "(\<forall>err. snd (dialClient E k1 r) = Inl err \<longrightarrow>
        (\<exists>k2. getRemoteKite E k kite = Inr (k2, Inl err) \<and> kites k2 = kites k \<and>
           hd (net_since k k2) = NetDial (Addr r) (net_Dial E (Addr r)) \<and>
           dial_attempts (net_since k k2) = 1))
     \<and> (\<forall>c. snd (dialClient E k1 r) = Inr c \<longrightarrow>
        (\<exists>k2. getRemoteKite E k kite = Inr (k2, Inr (r\<lparr>Client := Some c\<rparr>)) \<and>
           kites k2 = kites_Add (kites k) (r\<lparr>Client := Some c\<rparr>) \<and>
           hd (net_since k k2) = NetDial (Addr r) (net_Dial E (Addr r)) \<and>
           dial_attempts (net_since k k2) = 1))"
proof -
  obtain k2 res where d: "dialClient E k1 r = (k2, res)"
    by (cases "dialClient E k1 r")
  have kk: "kites k2 = kites k"
    using kites_dialClient [of E k1 r] roundRobin_keeps_kites [OF assms(1)] by (simp add: d)
  have eq: "net_since k k2 = net_since k1 k2"
    using roundRobin_keeps_net_log [OF assms(1)] by (simp add: net_since_def)
  have n: "dial_attempts (net_since k k2) = 1"
    unfolding eq using dialClient_dial_once [of k1 E r] by (simp add: d)
  have h: "hd (net_since k k2) = NetDial (Addr r) (net_Dial E (Addr r))"
    unfolding eq using dialClient_dials_first [of k1 E r] by (simp add: d)
  show ?thesis
    using kk n h by (auto simp: getRemoteKite_def assms d net_since_def Let_def)
qed

theorem getRemoteKite_dials_uncached_witness:
  "\<exists>k2. getRemoteKite (demo_env []) (demo_node\<lparr>kites := demo_registry\<rparr>) ''user/db'' =
       Inr (k2, Inr (demo_peer ''user/db'' ''10.0.0.4:4000''
                      \<lparr>Client := Some (ClientWithCodec (Conn ''10.0.0.4:4000''))\<rparr>))
     \<and> kites k2 = kites_Add (kites (demo_node\<lparr>kites := demo_registry\<rparr>))
          (demo_peer ''user/db'' ''10.0.0.4:4000''
             \<lparr>Client := Some (ClientWithCodec (Conn ''10.0.0.4:4000''))\<rparr>)
     \<and> hd (net_since (demo_node\<lparr>kites := demo_registry\<rparr>) k2) =
          NetDial (Addr (demo_peer ''user/db'' ''10.0.0.4:4000''))
            (net_Dial (demo_env []) (Addr (demo_peer ''user/db'' ''10.0.0.4:4000'')))
     \<and> dial_attempts (net_since (demo_node\<lparr>kites := demo_registry\<rparr>) k2) = 1"
proof -
  let ?k = "demo_node\<lparr>kites := demo_registry\<rparr>"
  let ?r = "demo_peer ''user/db'' ''10.0.0.4:4000''"
  let ?k1 = "?k\<lparr>List_calls := Suc (List_calls ?k),
      balance := AddOrUpdateIndex (balance ?k) ''user/db'' 1\<rparr>"
  have rs: "filter (\<lambda>r. Kitename r = ''user/db'') (snd (kites_List ?k)) =
      [demo_peer ''user/db'' ''10.0.0.2:4000'', ?r, demo_peer ''user/db'' ''10.0.0.5:4000'']"
    by (simp add: kites_List_def Let_def demo_node_def demo_registry_def demo_peer_def
        zero_Kite_def)
  have g: "GetIndex (balance demo_node) ''user/db'' = 0"
    by (simp add: GetIndex_def demo_node_def)
  have a: "roundRobin ?k ''user/db'' = Inr (?k1, Inr ?r)"
    using roundRobin_step [OF rs] by (simp add: g float64_exact)
  have b: "Client ?r = None"
    by (simp add: demo_peer_def zero_Kite_def)
  have c: "snd (dialClient (demo_env []) ?k1 ?r) = Inr (ClientWithCodec (Conn ''10.0.0.4:4000''))"
    by (simp add: snd_dialClient demo_env_def demo_peer_def zero_Kite_def)
  show ?thesis
    by (rule getRemoteKite_dials_uncached [OF a b, THEN conjunct2, THEN spec, THEN mp, OF c])
qed

lemma Call_runCall_once: "length (Call_runCall a) = 1"
  by (cases a) (simp_all add: Call_runCall_def Let_def)

text \<open>
  C5: the callback of \<open>Call\<close> is to get a non-nil error when the response never
  arrives. When the tick of the ten seconds comes first, \<open>fn\<close> is called once
  (\<open>Call_runCall_once\<close> above), with \<open>d.Error\<close> of the call still pending, which is nil,
  and the empty result.
\<close>

theorem Call_timeout_reports_nil_error:
  "Call_runCall Tick = [(None, '''')]"
  by (simp add: Call_runCall_def Client_Go_def)

end
